theory Spec2Isabelle
  imports Main
begin

section \<open>Host values\<close>

text \<open>
  The extension runs inside the desktop shell. What the shell hands to the code is kept
  as data: the compositor's window actors, JavaScript values where the code tests
  truthiness, and the results of the GLib calls that look programs up and run them.
\<close>

datatype error = TypeError | ParseError | SpawnError

datatype jsval =
    JUndefined
  | JNull
  | JBool bool
  | JNum int
  | JNaN
  | JStr string
  | JObj nat

text \<open>JavaScript's ToBoolean, as used by \<open>if (x)\<close>, \<open>x && y\<close> and \<open>Boolean(x)\<close>.\<close>

fun truthy :: "jsval \<Rightarrow> bool" where
  "truthy JUndefined = False"
| "truthy JNull = False"
| "truthy (JBool b) = b"
| "truthy (JNum n) = (n \<noteq> 0)"
| "truthy JNaN = False"
| "truthy (JStr s) = (s \<noteq> [])"
| "truthy (JObj a) = True"

text \<open>
  A window actor with the attributes of its Meta.Window that the code reads.
  \<open>get_wm_class\<close> is \<open>None\<close> where the window has no class (the call returns null).
\<close>

record window =
  wid :: nat
  get_wm_class :: "string option"
  is_hidden :: bool
  allows_move :: bool
  has_workspace :: bool

section \<open>MultiWindowHandler\<close>

text \<open>
  The body of the \<open>for (const actor of actors)\<close> loop of \<open>get\<close>: \<open>windows\<close> and
  \<open>wcount\<close> are the loop's variables, and \<open>break\<close> returns what has been collected.
\<close>

fun get_loop :: "string \<Rightarrow> int \<Rightarrow> window list \<Rightarrow> window list \<Rightarrow> int \<Rightarrow> window list" where
  "get_loop wm_class n [] windows wcount = windows"
| "get_loop wm_class n (actor # actors) windows wcount =
     (if get_wm_class actor = Some wm_class then
        (if n \<noteq> 0 \<and> wcount + 1 \<ge> n then windows @ [actor]
         else get_loop wm_class n actors (windows @ [actor]) (wcount + 1))
      else get_loop wm_class n actors windows wcount)"

text \<open>
  \<open>MultiWindowHandler.get(wm_class, n, newer_first)\<close>; the first argument is the list
  that \<open>global.get_window_actors()\<close> returns, in stacking order.
\<close>

definition MultiWindowHandler_get :: "window list \<Rightarrow> string \<Rightarrow> int \<Rightarrow> bool \<Rightarrow> window list" where
  "MultiWindowHandler_get window_actors wm_class n newer_first =
     (let actors = (if newer_first then rev window_actors else window_actors)
      in get_loop wm_class n actors [] 0)"

fun count_loop :: "string \<Rightarrow> bool \<Rightarrow> window list \<Rightarrow> nat \<Rightarrow> nat" where
  "count_loop wm_class active_only [] wcount = wcount"
| "count_loop wm_class active_only (actor # actors) wcount =
     (if active_only \<and> is_hidden actor then count_loop wm_class active_only actors wcount
      else if get_wm_class actor = Some wm_class
        then count_loop wm_class active_only actors (wcount + 1)
      else count_loop wm_class active_only actors wcount)"

definition MultiWindowHandler_count :: "window list \<Rightarrow> string \<Rightarrow> bool \<Rightarrow> nat" where
  "MultiWindowHandler_count window_actors wm_class active_only =
     count_loop wm_class active_only window_actors 0"

section \<open>lib/utils.js\<close>

text \<open>
  The calls into GLib, Gio and the shell, as functions of their arguments:
  \<^item> \<open>find_program_in_path\<close>: the absolute path, or \<open>None\<close> for null;
  \<^item> \<open>spawn_command_line_sync\<close>: the decoded standard output, or \<open>None\<close> where the call
    throws;
  \<^item> \<open>shell_parse_argv\<close>: the argument vector, or that the call throws or reports an
    invalid command;
  \<^item> \<open>spawnv\<close>: the subprocess that \<open>launcher.spawnv\<close> starts, with what it will have
    written and its exit status once it has finished; \<open>None\<close> where starting it throws;
  \<^item> \<open>get_primary_monitor\<close>: the index of the primary monitor;
  \<^item> \<open>icons_path\<close>: the path of the extension's \<open>icons\<close> directory.
\<close>

datatype parse_result = Parse_throws | Parse_invalid | Parsed "string list"

record subprocess =
  stdout :: "string option"
  stderr :: "string option"
  get_exit_status :: int

record host =
  find_program_in_path :: "string \<Rightarrow> string option"
  spawn_command_line_sync :: "string \<Rightarrow> string option"
  shell_parse_argv :: "string \<Rightarrow> parse_result"
  spawnv :: "string list \<Rightarrow> subprocess option"
  get_primary_monitor :: int
  icons_path :: string

text \<open>
  \<open>instance.disconnect(handler_id)\<close>. The first argument gives, for an object, its
  \<open>disconnect\<close> method (\<open>None\<close>: it has none), whose result is the exception it throws,
  if any. Reading the property of null or undefined, and calling what is not a function,
  throw a TypeError.
\<close>

fun call_disconnect :: "(nat \<Rightarrow> (jsval \<Rightarrow> error option) option) \<Rightarrow> jsval \<Rightarrow> jsval \<Rightarrow> error option" where
  "call_disconnect methods (JObj a) handler_id =
     (case methods a of None \<Rightarrow> Some TypeError | Some disconnect \<Rightarrow> disconnect handler_id)"
| "call_disconnect methods instance handler_id = Some TypeError"

text \<open>
  \<open>safe_disconnect(handler_id, instance)\<close>. The result is what the call returns or throws,
  with the handler ids on which a disconnect was attempted.
\<close>

definition safe_disconnect ::
  "(nat \<Rightarrow> (jsval \<Rightarrow> error option) option) \<Rightarrow> jsval \<Rightarrow> jsval \<Rightarrow> (error + bool) \<times> jsval list" where
  "safe_disconnect methods handler_id instance =
     (if truthy handler_id then
        (case call_disconnect methods instance handler_id of
           Some e \<Rightarrow> (Inr False, [handler_id])
         | None \<Rightarrow> (Inr True, [handler_id]))
      else (Inr True, []))"

text \<open>\<open>execute(command)\<close>: the command's output, null (\<open>None\<close>) on error.\<close>

definition execute :: "host \<Rightarrow> string \<Rightarrow> string option" where
  "execute h command =
     (case spawn_command_line_sync h command of
        Some out_str \<Rightarrow> Some out_str
      | None \<Rightarrow> None)"

definition is_available :: "host \<Rightarrow> string \<Rightarrow> bool" where
  "is_available h name =
     (case find_program_in_path h name of None \<Rightarrow> False | Some path \<Rightarrow> truthy (JStr path))"

text \<open>The loop \<open>for (var i = commands.length - 1; i >= 0; i--)\<close> of \<open>first_available\<close>.\<close>

function first_available_loop :: "host \<Rightarrow> string list \<Rightarrow> int \<Rightarrow> string option" where
  "first_available_loop h commands i =
     (if i \<ge> 0 then
        (if is_available h (commands ! nat i) then Some (commands ! nat i)
         else first_available_loop h commands (i - 1))
      else None)"
  by pat_completeness auto
termination
  by (relation "measure (\<lambda>(h, commands, i). nat (i + 1))") auto

definition first_available :: "host \<Rightarrow> string list \<Rightarrow> string option" where
  "first_available h commands = first_available_loop h commands (int (length commands) - 1)"

section \<open>lib/globals.js\<close>

text \<open>
  \<open>get_version\<close> and the commands it tries, from the variant of \<open>globals.js\<close> that
  defines them.
\<close>

definition candidate_commands :: "string list" where
  "candidate_commands = [''com.vixalien.sticky'', ''com.vixalien.st'']"

text \<open>\<open>s.split('\n')[0]\<close>: the text before the first line feed.\<close>

definition first_line :: "string \<Rightarrow> string" where
  "first_line s = takeWhile (\<lambda>c. c \<noteq> CHR 0x0A) s"

text \<open>
  \<open>get_version()\<close>. Where \<open>execute\<close> returns null, \<open>.split\<close> on it throws a TypeError.
\<close>

definition get_version :: "host \<Rightarrow> error + string" where
  "get_version h =
     (case first_available h candidate_commands of
        None \<Rightarrow> Inr []
      | Some cmd \<Rightarrow>
          if truthy (JStr cmd) then
            (case execute h (cmd @ '' -v'') of
               None \<Rightarrow> Inl TypeError
             | Some out_str \<Rightarrow>
                 (let ver = first_line out_str
                  in if length ver < 10 then Inr ver else Inr []))
          else Inr [])"

text \<open>
  \<open>AppInfo\<close>, as \<open>lib/globals.js\<close> has it: the shell's modules import that file, and
  its \<open>process\<close> is a constant.
\<close>

definition AppInfo_process :: string where
  "AppInfo_process = ''com.vixalien.sticky''"

definition AppInfo_wm_class :: string where
  "AppInfo_wm_class = ''com.vixalien.sticky''"

section \<open>Effects on the shell\<close>

text \<open>
  What the code asks of the compositor, the process launcher and the signal machinery is
  recorded, in order. The window list is an input of each call: the calls below record
  the requests made on windows and do not change the list they were given.
  \<open>Launch_called\<close> marks an entry into \<open>StickyNotesInterface.launch\<close>; it is the one
  entry that is not a request to the shell.
\<close>

datatype effect =
    Spawn "string list"
  | Launch_called
  | Emit_window_opened nat
  | Notify string
  | Activate nat
  | Activate_with_focus nat
  | Minimize nat
  | Kill nat
  | Move_to_monitor nat int
  | Move_frame nat int int
  | Schedule_move_frame nat int int
  | Menu_close

text \<open>
  The value that the completion callback of \<open>communicate_utf8_async\<close> returns. It is
  returned to Gio, which drops it: \<open>execute_async\<close> has returned by then.
\<close>

definition communicate_callback :: "subprocess \<Rightarrow> int" where
  "communicate_callback proc = get_exit_status proc"

text \<open>
  \<open>execute_async(command)\<close>, with the subprocess it started. A null command makes
  \<open>GLib.shell_parse_argv\<close> throw.
\<close>

definition execute_async :: "host \<Rightarrow> string option \<Rightarrow> (error + int) \<times> effect list" where
  "execute_async h command =
     (case command of
        None \<Rightarrow> (Inl TypeError, [])
      | Some c \<Rightarrow>
          (case shell_parse_argv h c of
             Parse_throws \<Rightarrow> (Inl ParseError, [])
           | Parse_invalid \<Rightarrow> (Inl ParseError, [])
           | Parsed parsed_command \<Rightarrow>
               (case spawnv h parsed_command of
                  None \<Rightarrow> (Inl SpawnError, [])
                | Some proc \<Rightarrow> (Inr 0, [Spawn parsed_command]))))"

subsection \<open>MultiWindowHandler: requests on windows\<close>

definition MultiWindowHandler_activate ::
  "window list \<Rightarrow> string \<Rightarrow> int \<Rightarrow> bool \<Rightarrow> effect list \<times> nat" where
  "MultiWindowHandler_activate window_actors wm_class n newer_first =
     (let windows = MultiWindowHandler_get window_actors wm_class n newer_first
      in (map (\<lambda>w. if has_workspace w then Activate_with_focus (wid w) else Activate (wid w))
            windows,
          length windows))"

definition MultiWindowHandler_minimize ::
  "window list \<Rightarrow> string \<Rightarrow> int \<Rightarrow> bool \<Rightarrow> effect list \<times> nat" where
  "MultiWindowHandler_minimize window_actors wm_class n newer_first =
     (let windows = MultiWindowHandler_get window_actors wm_class n newer_first
      in (map (\<lambda>w. Minimize (wid w)) windows, length windows))"

definition MultiWindowHandler_kill ::
  "window list \<Rightarrow> string \<Rightarrow> int \<Rightarrow> bool \<Rightarrow> effect list \<times> nat" where
  "MultiWindowHandler_kill window_actors wm_class n newer_first =
     (let windows = MultiWindowHandler_get window_actors wm_class n newer_first
      in (map (\<lambda>w. Kill (wid w)) windows, length windows))"

text \<open>\<open>monitor\<close> is \<open>None\<close> for null; \<open>if (monitor)\<close> is also false for monitor 0.\<close>

definition MultiWindowHandler_moveTo ::
  "window list \<Rightarrow> string \<Rightarrow> int \<Rightarrow> int \<Rightarrow> int option \<Rightarrow> int \<Rightarrow> bool \<Rightarrow> effect list \<times> nat" where
  "MultiWindowHandler_moveTo window_actors wm_class x y monitor n newer_first =
     (let windows = MultiWindowHandler_get window_actors wm_class n newer_first
      in (concat (map (\<lambda>w.
            (case monitor of
               None \<Rightarrow> []
             | Some m \<Rightarrow> if truthy (JNum m) then [Move_to_monitor (wid w) m] else [])
            @ (if is_hidden w \<or> \<not> allows_move w then [Schedule_move_frame (wid w) x y]
               else [Move_frame (wid w) x y])) windows),
          length windows))"

section \<open>StickyNotesInterface and StickyNotesIndicator\<close>

datatype task = Task_hide | Task_moveTo int int

datatype trigger =
    Left_Button_Press
  | Middle_Button_Press
  | Right_Button_Press
  | Scroll_Up
  | Scroll_Down

datatype action =
    Toggle
  | Show_All
  | Show_Last
  | Cycle
  | Hide_All
  | New_Note
  | Stack
  | Launch
  | Quit

record settings =
  keep_alive_setting :: bool
  show_panel_indicator :: int
  show_open_note_count :: bool
  use_builtin_icon :: bool
  trigger_action :: "trigger \<Rightarrow> int"

text \<open>
  The fields of the interface object (\<open>n_windows\<close> to \<open>launch_tasks\<close>), of the indicator
  (\<open>gicon\<close> to \<open>last_event\<close>; \<open>gicon\<close>, \<open>icon_visible\<close>, \<open>label_text\<close>, \<open>label_visible\<close>,
  \<open>box_visible\<close> and the two menu sections' visibility are the properties of its widgets),
  the settings store, and the effects so far. An icon is the string it was created from.
\<close>

record shell =
  n_windows :: nat
  keep_alive :: bool
  launch_lock :: bool
  launch_tasks :: "task list"
  gicon :: "string option"
  icon_visible :: bool
  label_text :: "string option"
  label_visible :: bool
  box_visible :: bool
  active_menu_visible :: bool
  inactive_menu_visible :: bool
  active_icon :: "string option"
  inactive_icon :: "string option"
  bindings :: "trigger \<Rightarrow> action option"
  last_event :: "nat option"
  settings :: settings
  effects :: "effect list"

type_synonym 'a outcome = "(error + 'a) \<times> shell"

definition record_effects :: "effect list \<Rightarrow> shell \<Rightarrow> shell" where
  "record_effects es s = s\<lparr>effects := effects s @ es\<rparr>"

text \<open>The getter \<open>active\<close>: \<open>Boolean(this._n_windows)\<close>.\<close>

definition active :: "shell \<Rightarrow> bool" where
  "active s = truthy (JNum (int (n_windows s)))"

subsection \<open>The indicator's update handlers\<close>

definition updateIcon :: "shell \<Rightarrow> shell" where
  "updateIcon s =
     (if active s then s\<lparr>gicon := active_icon s\<rparr> else s\<lparr>gicon := inactive_icon s\<rparr>)
     \<lparr>icon_visible := True\<rparr>"

definition loadIcons :: "host \<Rightarrow> shell \<Rightarrow> shell" where
  "loadIcons h s =
     updateIcon
       (if use_builtin_icon (settings s) then
          s\<lparr>active_icon := Some (icons_path h @ ''/window-pin.svg''),
            inactive_icon := Some (icons_path h @ ''/window-unpin.svg'')\<rparr>
        else
          s\<lparr>active_icon := Some ''view-pin-symbolic'',
            inactive_icon := Some ''view-pin-symbolic''\<rparr>)"

text \<open>\<open>String(n)\<close> for a window count.\<close>

fun String_of_nat :: "nat \<Rightarrow> string" where
  "String_of_nat n =
     (if n < 10 then [char_of (48 + n)]
      else String_of_nat (n div 10) @ [char_of (48 + n mod 10)])"

definition updateLabel :: "shell \<Rightarrow> shell" where
  "updateLabel s =
     (if show_open_note_count (settings s) \<and> active s then
        s\<lparr>label_text := Some (String_of_nat (n_windows s)), label_visible := True\<rparr>
      else s\<lparr>label_text := None, label_visible := False\<rparr>)"

definition updateMenu :: "shell \<Rightarrow> shell" where
  "updateMenu s = s\<lparr>active_menu_visible := active s, inactive_menu_visible := \<not> active s\<rparr>"

text \<open>\<open>Visibility\<close>: Never is 0, Dynamic is 1, Always is 2.\<close>

definition Visibility_Never :: int where "Visibility_Never = 0"
definition Visibility_Dynamic :: int where "Visibility_Dynamic = 1"
definition Visibility_Always :: int where "Visibility_Always = 2"

definition updateVisibility :: "shell \<Rightarrow> shell" where
  "updateVisibility s =
     (let visible = show_panel_indicator (settings s)
      in if visible = Visibility_Always \<or> (visible = Visibility_Dynamic \<and> active s) then
           updateLabel (updateIcon (s\<lparr>box_visible := True\<rparr>))
         else s\<lparr>icon_visible := False, label_visible := False, box_visible := False\<rparr>)"

text \<open>
  \<open>this.notify(...)\<close>: the handlers that the indicator connected in \<open>_init\<close>, in the order
  of their connection. \<open>BackgroundMenuOverride._update\<close> is connected to \<open>notify::active\<close>
  as well; it reads \<open>active\<close> and changes the background menus only, which have a state of
  their own below.
\<close>

definition notify_n_windows :: "shell \<Rightarrow> shell" where
  "notify_n_windows s = updateLabel (record_effects [Notify ''n-windows''] s)"

definition notify_active :: "shell \<Rightarrow> shell" where
  "notify_active s = updateVisibility (updateMenu (updateIcon (record_effects [Notify ''active''] s)))"

text \<open>\<open>StickyNotesAction\<close>: the action bound for a setting's value, null for the others.\<close>

definition action_of_setting :: "int \<Rightarrow> action option" where
  "action_of_setting v =
     (if v = 1 then Some Toggle
      else if v = 2 then Some Show_All
      else if v = 3 then Some Show_Last
      else if v = 4 then Some Cycle
      else if v = 5 then Some Hide_All
      else if v = 6 then Some New_Note
      else if v = 8 then Some Stack
      else if v = 10 then Some Launch
      else if v = 11 then Some Quit
      else None)"

definition bindAction :: "trigger \<Rightarrow> shell \<Rightarrow> shell" where
  "bindAction trg s =
     s\<lparr>bindings := (bindings s)(trg := action_of_setting (trigger_action (settings s) trg))\<rparr>"

subsection \<open>The interface's methods\<close>

definition show_notes :: "window list \<Rightarrow> int \<Rightarrow> bool \<Rightarrow> shell \<Rightarrow> bool \<times> shell" where
  "show_notes window_actors n newer_first s =
     (let (es, wcount) = MultiWindowHandler_activate window_actors AppInfo_wm_class n newer_first
      in (truthy (JNum (int wcount)), record_effects es s))"

definition hide :: "window list \<Rightarrow> int \<Rightarrow> bool \<Rightarrow> shell \<Rightarrow> bool \<times> shell" where
  "hide window_actors n newer_first s =
     (let (es, wcount) = MultiWindowHandler_minimize window_actors AppInfo_wm_class n newer_first
      in (truthy (JNum (int wcount)), record_effects es s))"

definition close :: "window list \<Rightarrow> int \<Rightarrow> bool \<Rightarrow> shell \<Rightarrow> bool \<times> shell" where
  "close window_actors n newer_first s =
     (let (es, wcount) = MultiWindowHandler_kill window_actors AppInfo_wm_class n newer_first
      in (truthy (JNum (int wcount)), record_effects es s))"

definition toggle :: "window list \<Rightarrow> shell \<Rightarrow> shell" where
  "toggle window_actors s =
     (if truthy (JNum (int (MultiWindowHandler_count window_actors AppInfo_wm_class True)))
      then snd (hide window_actors 0 True s)
      else snd (show_notes window_actors 0 True s))"

definition stack :: "host \<Rightarrow> window list \<Rightarrow> int \<Rightarrow> int \<Rightarrow> shell \<Rightarrow> bool \<times> shell" where
  "stack h window_actors x y s =
     (let (es, wcount) =
            MultiWindowHandler_moveTo window_actors AppInfo_wm_class x y
              (Some (get_primary_monitor h)) 0 True
      in (truthy (JNum (int wcount)), record_effects es s))"

text \<open>
  \<open>launch()\<close>: undefined while the launch lock is set; what \<open>execute_async\<close> throws is
  thrown on, before the lock is assigned.
\<close>

definition launch :: "host \<Rightarrow> shell \<Rightarrow> jsval outcome" where
  "launch h s0 =
     (let s = record_effects [Launch_called] s0
      in if launch_lock s then (Inr JUndefined, s)
         else
           (case execute_async h (Some AppInfo_process) of
              (Inl e, es) \<Rightarrow> (Inl e, record_effects es s)
            | (Inr exit, es) \<Rightarrow>
                (Inr (JBool (\<not> truthy (JNum exit))),
                 (record_effects es s)\<lparr>launch_lock := \<not> truthy (JNum exit)\<rparr>)))"

definition NEWNOTE_CMD :: string where
  "NEWNOTE_CMD = AppInfo_process @ '' -n''"

text \<open>\<open>new(at)\<close>; \<open>at\<close> is the array of coordinates, empty by default.\<close>

definition new :: "host \<Rightarrow> window list \<Rightarrow> int list \<Rightarrow> shell \<Rightarrow> jsval outcome" where
  "new h window_actors at s =
     (if launch_lock s then (Inr JUndefined, s)
      else
        (let s1 = (if active s then snd (close window_actors 0 True s) else s)
         in case execute_async h (Some NEWNOTE_CMD) of
              (Inl e, es) \<Rightarrow> (Inl e, record_effects es s1)
            | (Inr exit, es) \<Rightarrow>
                (let s2 = (record_effects es s1)\<lparr>launch_lock := \<not> truthy (JNum exit)\<rparr>;
                     s3 = (if \<not> truthy (JNum exit) \<and> length at = 2
                           then s2\<lparr>launch_tasks := launch_tasks s2 @ [Task_moveTo (at ! 0) (at ! 1)]\<rparr>
                           else s2)
                 in (Inr (JBool (\<not> truthy (JNum exit))), s3))))"

text \<open>
  A launch task is \<open>this.hide.bind(this)\<close> or \<open>MultiWindowHandler.moveTo.bind(null,
  wm_class, x, y)\<close>, called with no further argument: the defaults apply.
\<close>

fun run_task :: "window list \<Rightarrow> task \<Rightarrow> shell \<Rightarrow> shell" where
  "run_task window_actors Task_hide s = snd (hide window_actors 0 True s)"
| "run_task window_actors (Task_moveTo x y) s =
     record_effects (fst (MultiWindowHandler_moveTo window_actors AppInfo_wm_class x y None 1 True)) s"

text \<open>The default handler of \<open>window-opened\<close>.\<close>

definition on_window_opened :: "window list \<Rightarrow> shell \<Rightarrow> shell" where
  "on_window_opened window_actors s =
     (fold (run_task window_actors) (launch_tasks s) s)\<lparr>launch_lock := False, launch_tasks := []\<rparr>"

text \<open>\<open>this.emit('window-opened', window)\<close>: no other handler is connected.\<close>

definition emit_window_opened :: "window list \<Rightarrow> window \<Rightarrow> shell \<Rightarrow> shell" where
  "emit_window_opened window_actors w s =
     on_window_opened window_actors (record_effects [Emit_window_opened (wid w)] s)"

text \<open>\<open>refresh()\<close>, given the window actors of the moment.\<close>

definition refresh :: "host \<Rightarrow> window list \<Rightarrow> shell \<Rightarrow> jsval outcome" where
  "refresh h window_actors s =
     (let n = MultiWindowHandler_count window_actors AppInfo_wm_class False
      in if n_windows s = n then (Inr JUndefined, s)
         else
           (let wdiff = int n - int (n_windows s);
                s1 = (if truthy (JNum wdiff) then
                        fold (emit_window_opened window_actors)
                          (MultiWindowHandler_get window_actors AppInfo_wm_class wdiff True) s
                      else s);
                s2 = notify_active (notify_n_windows (s1\<lparr>n_windows := n\<rparr>))
            in if active s2 then (Inr (JBool True), s2)
               else if keep_alive s2 \<and> \<not> launch_lock s2 then
                 (case launch h s2 of
                    (Inl e, s3) \<Rightarrow> (Inl e, s3)
                  | (Inr r, s3) \<Rightarrow>
                      (Inr (JBool True), s3\<lparr>launch_tasks := launch_tasks s3 @ [Task_hide]\<rparr>))
               else (Inr (JBool True), s2)))"

subsection \<open>Quick actions\<close>

fun run_action :: "host \<Rightarrow> window list \<Rightarrow> action \<Rightarrow> shell \<Rightarrow> unit outcome" where
  "run_action h window_actors Toggle s = (Inr (), toggle window_actors s)"
| "run_action h window_actors Show_All s = (Inr (), snd (show_notes window_actors 0 True s))"
| "run_action h window_actors Show_Last s = (Inr (), snd (show_notes window_actors 1 True s))"
| "run_action h window_actors Cycle s = (Inr (), snd (show_notes window_actors 1 False s))"
| "run_action h window_actors Hide_All s = (Inr (), snd (hide window_actors 0 True s))"
| "run_action h window_actors New_Note s =
     (case new h window_actors [] s of (Inl e, s') \<Rightarrow> (Inl e, s') | (Inr r, s') \<Rightarrow> (Inr (), s'))"
| "run_action h window_actors Stack s = (Inr (), snd (stack h window_actors 20 50 s))"
| "run_action h window_actors Launch s =
     (case launch h s of (Inl e, s') \<Rightarrow> (Inl e, s') | (Inr r, s') \<Rightarrow> (Inr (), s'))"
| "run_action h window_actors Quit s = (Inr (), snd (close window_actors 0 True s))"

text \<open>
  A Clutter event: its time in milliseconds, its button (1 primary, 2 middle,
  3 secondary) and its scroll direction (0 up, 1 down).
\<close>

record event =
  get_time :: nat
  get_button :: nat
  get_scroll_direction :: nat

definition BUTTON_PRIMARY :: nat where "BUTTON_PRIMARY = 1"
definition BUTTON_MIDDLE :: nat where "BUTTON_MIDDLE = 2"
definition BUTTON_SECONDARY :: nat where "BUTTON_SECONDARY = 3"
definition ScrollDirection_UP :: nat where "ScrollDirection_UP = 0"
definition ScrollDirection_DOWN :: nat where "ScrollDirection_DOWN = 1"

text \<open>The test that opens \<open>_onButtonPress\<close>: the press is dropped where it holds.\<close>

definition ignored :: "shell \<Rightarrow> event \<Rightarrow> bool" where
  "ignored s ev =
     (case last_event s of
        None \<Rightarrow> False
      | Some t \<Rightarrow> truthy (JNum (int t)) \<and> int (get_time ev) - int t < 200)"

definition menu_override :: "host \<Rightarrow> window list \<Rightarrow> action option \<Rightarrow> shell \<Rightarrow> unit outcome" where
  "menu_override h window_actors binding s =
     (case binding of
        None \<Rightarrow> (Inr (), s)
      | Some a \<Rightarrow> run_action h window_actors a (record_effects [Menu_close] s))"

definition onButtonPress :: "host \<Rightarrow> window list \<Rightarrow> event \<Rightarrow> shell \<Rightarrow> unit outcome" where
  "onButtonPress h window_actors ev s =
     (if ignored s ev then (Inr (), s)
      else
        (case (if get_button ev = BUTTON_PRIMARY then
                 menu_override h window_actors (bindings s Left_Button_Press) s
               else if get_button ev = BUTTON_MIDDLE then
                 menu_override h window_actors (bindings s Middle_Button_Press) s
               else if get_button ev = BUTTON_SECONDARY then
                 menu_override h window_actors (bindings s Right_Button_Press) s
               else (Inr (), s)) of
           (Inl e, s') \<Rightarrow> (Inl e, s')
         | (Inr u, s') \<Rightarrow> (Inr (), s'\<lparr>last_event := Some (get_time ev)\<rparr>)))"

text \<open>\<open>_onScroll\<close> calls the binding without testing it: calling null throws.\<close>

definition call_binding :: "host \<Rightarrow> window list \<Rightarrow> action option \<Rightarrow> shell \<Rightarrow> unit outcome" where
  "call_binding h window_actors binding s =
     (case binding of
        None \<Rightarrow> (Inl TypeError, s)
      | Some a \<Rightarrow> run_action h window_actors a s)"

definition onScroll :: "host \<Rightarrow> window list \<Rightarrow> event \<Rightarrow> shell \<Rightarrow> unit outcome" where
  "onScroll h window_actors ev s =
     (case (if get_scroll_direction ev = ScrollDirection_UP then
              call_binding h window_actors (bindings s Scroll_Up) s
            else if get_scroll_direction ev = ScrollDirection_DOWN then
              call_binding h window_actors (bindings s Scroll_Down) s
            else (Inr (), s)) of
        (Inl e, s') \<Rightarrow> (Inl e, s')
      | (Inr u, s') \<Rightarrow> (Inr (), s'\<lparr>last_event := Some (get_time ev)\<rparr>))"

subsection \<open>Construction and the events of a session\<close>

text \<open>
  The state once \<open>new StickyNotesInterface(extension)\<close> has returned: its \<open>refresh()\<close> ran
  from \<open>_n_windows = 0\<close> with no handler connected, and the launch fields were assigned
  after it. The indicator's fields are those of its widgets before \<open>_init\<close>.
\<close>

definition StickyNotesInterface_new :: "settings \<Rightarrow> window list \<Rightarrow> shell" where
  "StickyNotesInterface_new st window_actors =
     \<lparr>n_windows = MultiWindowHandler_count window_actors AppInfo_wm_class False,
      keep_alive = keep_alive_setting st,
      launch_lock = False,
      launch_tasks = [],
      gicon = None,
      icon_visible = False,
      label_text = None,
      label_visible = False,
      box_visible = True,
      active_menu_visible = True,
      inactive_menu_visible = True,
      active_icon = None,
      inactive_icon = None,
      bindings = (\<lambda>trg. None),
      last_event = None,
      settings = st,
      effects = []\<rparr>"

definition TriggerKey_values :: "trigger list" where
  "TriggerKey_values =
     [Left_Button_Press, Middle_Button_Press, Right_Button_Press, Scroll_Up, Scroll_Down]"

text \<open>\<open>StickyNotesIndicator._init\<close>: the bindings, then the initial updates.\<close>

definition StickyNotesIndicator_init :: "host \<Rightarrow> shell \<Rightarrow> shell" where
  "StickyNotesIndicator_init h s =
     updateVisibility (updateMenu (updateLabel (updateIcon (loadIcons h
       ((fold bindAction TriggerKey_values (s\<lparr>icon_visible := False, label_visible := False\<rparr>))
          \<lparr>last_event := None\<rparr>)))))"

definition enable :: "host \<Rightarrow> settings \<Rightarrow> window list \<Rightarrow> shell" where
  "enable h st window_actors = StickyNotesIndicator_init h (StickyNotesInterface_new st window_actors)"

text \<open>
  What happens to the enabled extension: a tracked signal calls \<open>refresh\<close>, a setting
  changes and its handler runs, the pointer presses or scrolls on the indicator. Each
  carries the window actors of its moment. An exception leaves a handler where it is
  thrown; the state reached by then stays.
\<close>

datatype shell_event =
    Refresh "window list"
  | Changed_keep_alive bool
  | Changed_use_builtin_icon bool
  | Changed_show_open_note_count bool
  | Changed_show_panel_indicator int
  | Changed_trigger trigger int
  | Button_press event "window list"
  | Scroll event "window list"

fun step :: "host \<Rightarrow> shell_event \<Rightarrow> shell \<Rightarrow> shell" where
  "step h (Refresh window_actors) s = snd (refresh h window_actors s)"
| "step h (Changed_keep_alive b) s =
     s\<lparr>settings := (settings s)\<lparr>keep_alive_setting := b\<rparr>, keep_alive := b\<rparr>"
| "step h (Changed_use_builtin_icon b) s =
     loadIcons h (s\<lparr>settings := (settings s)\<lparr>use_builtin_icon := b\<rparr>\<rparr>)"
| "step h (Changed_show_open_note_count b) s =
     updateLabel (s\<lparr>settings := (settings s)\<lparr>show_open_note_count := b\<rparr>\<rparr>)"
| "step h (Changed_show_panel_indicator v) s =
     updateVisibility (s\<lparr>settings := (settings s)\<lparr>show_panel_indicator := v\<rparr>\<rparr>)"
| "step h (Changed_trigger trg v) s =
     bindAction trg (s\<lparr>settings := (settings s)\<lparr>trigger_action := (trigger_action (settings s))(trg := v)\<rparr>\<rparr>)"
| "step h (Button_press ev window_actors) s = snd (onButtonPress h window_actors ev s)"
| "step h (Scroll ev window_actors) s = snd (onScroll h window_actors ev s)"

definition run :: "host \<Rightarrow> shell_event list \<Rightarrow> shell \<Rightarrow> shell" where
  "run h evs s = fold (step h) evs s"

section \<open>BackgroundMenuOverride\<close>

text \<open>
  An entry of a background menu is an object; the number tells objects apart.
  \<open>bg_managers\<close> holds, for each of \<open>Main.layoutManager._bgManagers\<close>, the entries of its
  \<open>backgroundActor._backgroundMenu\<close>, first entry first. \<open>background_menu\<close> is the index of
  the manager whose menu \<open>this._background_menu\<close> refers to.
\<close>

datatype menu_item = Default_item nat | New_note_item nat | Separator_item nat

record background_menu_override =
  bg_managers :: "menu_item list list"
  background_menu :: "nat option"
  new_note_menu_item :: "menu_item option"
  separator_menu_item :: "menu_item option"
  next_object :: nat

definition DEFAULT_BGMENU_ITEMS :: nat where
  "DEFAULT_BGMENU_ITEMS = 4"

text \<open>\<open>_isOverriden()\<close>; reading \<open>_bgManagers[0]\<close> of an empty array throws.\<close>

definition isOverriden :: "background_menu_override \<Rightarrow> error + bool" where
  "isOverriden b =
     (case bg_managers b of
        [] \<Rightarrow> Inl TypeError
      | menu # rest \<Rightarrow> Inr (length menu > DEFAULT_BGMENU_ITEMS))"

text \<open>
  One round of the loop of \<open>apply\<close>, for the manager at index \<open>i\<close>: two new objects, kept
  in the fields, and added at position 0, the separator first.
\<close>

definition apply_one :: "nat \<Rightarrow> background_menu_override \<Rightarrow> background_menu_override" where
  "apply_one i b =
     (let item = New_note_item (next_object b);
          sep = Separator_item (next_object b + 1)
      in b\<lparr>background_menu := Some i,
           new_note_menu_item := Some item,
           separator_menu_item := Some sep,
           next_object := next_object b + 2,
           bg_managers := (bg_managers b)[i := item # sep # (bg_managers b ! i)]\<rparr>)"

definition apply_override :: "background_menu_override \<Rightarrow> error + background_menu_override" where
  "apply_override b =
     (case isOverriden b of
        Inl e \<Rightarrow> Inl e
      | Inr True \<Rightarrow> Inr b
      | Inr False \<Rightarrow> Inr (fold apply_one [0 ..< length (bg_managers b)] b))"

text \<open>\<open>item?.destroy()\<close>: the entry leaves the menu that holds it.\<close>

definition destroy :: "menu_item option \<Rightarrow> menu_item list list \<Rightarrow> menu_item list list" where
  "destroy item menus =
     (case item of None \<Rightarrow> menus | Some it \<Rightarrow> map (filter (\<lambda>x. x \<noteq> it)) menus)"

text \<open>
  \<open>revert()\<close>. Its eight \<open>safe_disconnect\<close> calls pass the instance where the handler id is
  expected and the handler id where the instance is: each calls \<open>disconnect\<close> on what is
  not an object, catches the TypeError and returns false, and no state changes.
\<close>

definition revert :: "background_menu_override \<Rightarrow> error + background_menu_override" where
  "revert b =
     (case isOverriden b of
        Inl e \<Rightarrow> Inl e
      | Inr False \<Rightarrow> Inr b
      | Inr True \<Rightarrow>
          Inr (b\<lparr>bg_managers :=
                   destroy (separator_menu_item b) (destroy (new_note_menu_item b) (bg_managers b)),
                 background_menu := None\<rparr>))"

text \<open>
  \<open>_update()\<close>, given the value of the setting \<open>override-background-menu\<close> and the
  interface's \<open>active\<close>.
\<close>

definition update :: "int \<Rightarrow> bool \<Rightarrow> background_menu_override \<Rightarrow> error + background_menu_override" where
  "update visible is_active b =
     (let should_override =
            (visible = Visibility_Always \<or> (visible = Visibility_Dynamic \<and> is_active))
      in case isOverriden b of
           Inl e \<Rightarrow> Inl e
         | Inr overriden \<Rightarrow>
             if should_override \<and> \<not> overriden then apply_override b
             else if \<not> should_override \<and> overriden then revert b
             else Inr b)"

definition has_new_note :: "menu_item list \<Rightarrow> bool" where
  "has_new_note menu = list_ex (\<lambda>x. case x of New_note_item k \<Rightarrow> True | _ \<Rightarrow> False) menu"

section \<open>Properties of states\<close>

text \<open>The indicator shows the icon that belongs to the interface's \<open>active\<close>.\<close>

definition icon_matches :: "shell \<Rightarrow> bool" where
  "icon_matches s = (gicon s = (if active s then active_icon s else inactive_icon s))"

text \<open>
  The two icon fields hold what \<open>_loadIcons\<close> assigns under the current value of
  \<open>use-builtin-icon\<close>.
\<close>

definition icons_loaded :: "host \<Rightarrow> shell \<Rightarrow> bool" where
  "icons_loaded h s =
     (if use_builtin_icon (settings s) then
        active_icon s = Some (icons_path h @ ''/window-pin.svg'') \<and>
        inactive_icon s = Some (icons_path h @ ''/window-unpin.svg'')
      else
        active_icon s = Some ''view-pin-symbolic'' \<and>
        inactive_icon s = Some ''view-pin-symbolic'')"

text \<open>The entries into \<open>launch\<close> and the subprocesses started, among some effects.\<close>

definition launches :: "effect list \<Rightarrow> effect list" where
  "launches es =
     filter (\<lambda>e. case e of Launch_called \<Rightarrow> True | Spawn argv \<Rightarrow> True | _ \<Rightarrow> False) es"

text \<open>
  The fields that a request to the compositor or to the launcher leaves as they are, and
  those that decide a relaunch.
\<close>

definition kept_fields ::
  "shell \<Rightarrow> nat \<times> string option \<times> string option \<times> string option \<times> bool \<times> settings" where
  "kept_fields s = (n_windows s, gicon s, active_icon s, inactive_icon s, keep_alive s, settings s)"

text \<open>The field \<open>_keep_alive\<close> holds the value of the setting \<open>keep-alive\<close>.\<close>

definition keep_alive_mirrors :: "shell \<Rightarrow> bool" where
  "keep_alive_mirrors s = (keep_alive s = keep_alive_setting (settings s))"

definition launch_fields :: "shell \<Rightarrow> bool \<times> bool \<times> effect list" where
  "launch_fields s = (keep_alive s, launch_lock s, launches (effects s))"

section \<open>Example inputs\<close>

definition note_window :: "nat \<Rightarrow> window" where
  "note_window k =
     \<lparr>wid = k, get_wm_class = Some ''com.vixalien.sticky'', is_hidden = False,
      allows_move = True, has_workspace = True\<rparr>"

definition terminal_window :: "nat \<Rightarrow> window" where
  "terminal_window k =
     \<lparr>wid = k, get_wm_class = Some ''org.gnome.Terminal'', is_hidden = False,
      allows_move = True, has_workspace = True\<rparr>"

text \<open>
  A host where the application is installed under its full name and under
  \<open>sticky-notes\<close>, prints its version, and where every subprocess starts and then fails
  with exit status 1.
\<close>

definition example_host :: host where
  "example_host =
     \<lparr>find_program_in_path =
        (\<lambda>name. if name = ''com.vixalien.sticky'' \<or> name = ''sticky-notes''
                then Some (''/usr/bin/'' @ name) else None),
      spawn_command_line_sync = (\<lambda>command. Some (''0.2.1'' @ [CHR 0x0A])),
      shell_parse_argv = (\<lambda>command. Parsed [command]),
      spawnv = (\<lambda>argv. Some \<lparr>stdout = None, stderr = Some ''failed'', get_exit_status = 1\<rparr>),
      get_primary_monitor = 0,
      icons_path = ''/ext/icons''\<rparr>"

text \<open>The same host without the application.\<close>

definition bare_host :: host where
  "bare_host = example_host\<lparr>find_program_in_path := (\<lambda>name. None)\<rparr>"

definition example_settings :: settings where
  "example_settings =
     \<lparr>keep_alive_setting = True,
      show_panel_indicator = 2,
      show_open_note_count = True,
      use_builtin_icon = True,
      trigger_action = (\<lambda>trg. if trg = Left_Button_Press then 5 else 0)\<rparr>"

text \<open>The same settings with the icon taken from the system theme, as the schema defaults.\<close>

definition themed_settings :: settings where
  "themed_settings = example_settings\<lparr>use_builtin_icon := False\<rparr>"

definition press :: "nat \<Rightarrow> event" where
  "press t = \<lparr>get_time = t, get_button = 1, get_scroll_direction = 0\<rparr>"

text \<open>Two monitors, each with the four entries of the shell's background menu.\<close>

definition two_monitors :: background_menu_override where
  "two_monitors =
     \<lparr>bg_managers =
        [[Default_item 0, Default_item 1, Default_item 2, Default_item 3],
         [Default_item 4, Default_item 5, Default_item 6, Default_item 7]],
      background_menu = None,
      new_note_menu_item = None,
      separator_menu_item = None,
      next_object = 8\<rparr>"

section \<open>Window selection\<close>

lemma get_loop_all:
  "get_loop c 0 actors windows wcount = windows @ filter (\<lambda>w. get_wm_class w = Some c) actors"
  by (induction actors arbitrary: windows wcount) auto

lemma get_loop_take:
  "0 < n \<Longrightarrow> wcount < n \<Longrightarrow>
   get_loop c n actors windows wcount =
     windows @ take (nat (n - wcount)) (filter (\<lambda>w. get_wm_class w = Some c) actors)"
proof (induction actors arbitrary: windows wcount)
  case Nil
  then show ?case by simp
next
  case (Cons a actors)
  show ?case
  proof (cases "get_wm_class a = Some c")
    case False
    then show ?thesis using Cons by simp
  next
    case match: True
    show ?thesis
    proof (cases "wcount + 1 \<ge> n")
      case True
      with Cons.prems have "nat (n - wcount) = Suc 0" by simp
      then show ?thesis using match True Cons.prems by simp
    next
      case False
      then have lt: "wcount + 1 < n" by simp
      have "nat (n - wcount) = Suc (nat (n - (wcount + 1)))" using lt by simp
      then show ?thesis using match False Cons.IH[OF Cons.prems(1) lt] by simp
    qed
  qed
qed

lemma count_loop_filter:
  "count_loop c False actors wcount =
     wcount + length (filter (\<lambda>w. get_wm_class w = Some c) actors)"
  by (induction actors arbitrary: wcount) auto

lemma count_eq_length_filter:
  "MultiWindowHandler_count actors c False = length (filter (\<lambda>w. get_wm_class w = Some c) actors)"
  by (simp add: MultiWindowHandler_count_def count_loop_filter)

lemma get_all_eq_filter:
  "MultiWindowHandler_get actors c 0 newer_first =
     filter (\<lambda>w. get_wm_class w = Some c) (if newer_first then rev actors else actors)"
  by (simp add: MultiWindowHandler_get_def get_loop_all)

text \<open>
  C1. For every list of window actors, every class string, every \<open>n \<ge> 0\<close> and either
  value of \<open>newer_first\<close>, \<open>MultiWindowHandler.get\<close> returns the windows whose WM_CLASS
  equals the class, in stacking order, or in reversed order when \<open>newer_first\<close> is true,
  cut to the first \<open>n\<close> matches when \<open>n > 0\<close> and complete when \<open>n = 0\<close>.
\<close>

theorem get_returns_matches:
  assumes "0 \<le> n"
  shows "MultiWindowHandler_get window_actors wm_class n newer_first =
     (let matches = filter (\<lambda>w. get_wm_class w = Some wm_class)
                      (if newer_first then rev window_actors else window_actors)
      in if 0 < n then take (nat n) matches else matches)"
proof (cases "n = 0")
  case True
  then show ?thesis by (simp add: MultiWindowHandler_get_def get_loop_all Let_def)
next
  case False
  with assms have "0 < n" by simp
  then show ?thesis
    using get_loop_take[of n 0] by (simp add: MultiWindowHandler_get_def Let_def)
qed

theorem get_returns_matches_witness:
  "(0::int) \<le> 2 \<and>
   MultiWindowHandler_get [note_window 1, terminal_window 2, note_window 3, note_window 4]
     ''com.vixalien.sticky'' 2 True = [note_window 4, note_window 3]"
proof -
  have h: "(0::int) \<le> 2" by simp
  show ?thesis
    using get_returns_matches[OF h,
        of "[note_window 1, terminal_window 2, note_window 3, note_window 4]"
           "''com.vixalien.sticky''" True]
    by (simp add: note_window_def terminal_window_def)
qed

text \<open>
  C8. For every list of window actors and every class string,
  \<open>MultiWindowHandler.count(wm_class, false)\<close> is the length of the array that
  \<open>MultiWindowHandler.get(wm_class, 0, newer_first)\<close> returns, for either value of
  \<open>newer_first\<close>.
\<close>

theorem count_is_length_of_get:
  "MultiWindowHandler_count window_actors wm_class False =
   length (MultiWindowHandler_get window_actors wm_class 0 newer_first)"
  by (simp add: count_eq_length_filter get_all_eq_filter flip: rev_filter)

section \<open>Utilities\<close>

lemma first_available_loop_greatest:
  "i < int (length commands) \<Longrightarrow>
   first_available_loop h commands i =
     (if \<exists>j. j < nat (i + 1) \<and> is_available h (commands ! j)
      then Some (commands ! (GREATEST j. j < nat (i + 1) \<and> is_available h (commands ! j)))
      else None)"
proof (induction h commands i rule: first_available_loop.induct)
  case (1 h commands i)
  show ?case
  proof (cases "i \<ge> 0")
    case False
    then have "nat (i + 1) = 0" by simp
    then show ?thesis using False by simp
  next
    case nonneg: True
    then have suc: "nat (i + 1) = Suc (nat i)" by simp
    show ?thesis
    proof (cases "is_available h (commands ! nat i)")
      case True
      have "(GREATEST j. j < Suc (nat i) \<and> is_available h (commands ! j)) = nat i"
        by (rule Greatest_equality) (use True in auto)
      then show ?thesis using True nonneg suc
        by (subst first_available_loop.simps) auto
    next
      case False
      have eq: "\<And>j. (j < Suc (nat i) \<and> is_available h (commands ! j)) =
                    (j < nat (i - 1 + 1) \<and> is_available h (commands ! j))"
        using False nonneg by (auto simp: less_Suc_eq)
      have "first_available_loop h commands i = first_available_loop h commands (i - 1)"
        using False nonneg by (subst first_available_loop.simps) simp
      also have "\<dots> =
          (if \<exists>j. j < nat (i - 1 + 1) \<and> is_available h (commands ! j)
           then Some (commands ! (GREATEST j. j < nat (i - 1 + 1) \<and> is_available h (commands ! j)))
           else None)"
        using "1.IH"[OF nonneg False] "1.prems" by simp
      finally show ?thesis unfolding suc eq .
    qed
  qed
qed

lemma first_available_loop_mem:
  "i < int (length commands) \<Longrightarrow> first_available_loop h commands i = Some c \<Longrightarrow>
   c \<in> set commands"
proof (induction h commands i rule: first_available_loop.induct)
  case (1 h commands i)
  from "1.prems"(2) have nonneg: "i \<ge> 0"
    by (subst (asm) first_available_loop.simps) (simp split: if_splits)
  show ?case
  proof (cases "is_available h (commands ! nat i)")
    case True
    then have "c = commands ! nat i" using "1.prems"(2) nonneg
      by (subst (asm) first_available_loop.simps) simp
    then show ?thesis using "1.prems"(1) nonneg by simp
  next
    case False
    then have "first_available_loop h commands (i - 1) = Some c" using "1.prems"(2) nonneg
      by (subst (asm) first_available_loop.simps) simp
    then show ?thesis using "1.IH"[OF nonneg False] "1.prems"(1) by simp
  qed
qed

lemma first_available_mem: "first_available h commands = Some c \<Longrightarrow> c \<in> set commands"
  using first_available_loop_mem[of "int (length commands) - 1" commands h c]
  by (simp add: first_available_def)

text \<open>
  C9. For every list of command names, \<open>first_available\<close> returns the available command
  with the greatest index in the list, and null when no command of the list is available.
\<close>

theorem first_available_greatest_index:
  "first_available h commands =
     (if \<exists>i < length commands. is_available h (commands ! i)
      then Some (commands ! (GREATEST i. i < length commands \<and> is_available h (commands ! i)))
      else None)"
  using first_available_loop_greatest[of "int (length commands) - 1" commands h]
  by (simp add: first_available_def)

theorem first_available_greatest_index_witness:
  "(\<exists>i < length [''com.vixalien.sticky'', ''missing'', ''sticky-notes'', ''gone''].
      is_available example_host ([''com.vixalien.sticky'', ''missing'', ''sticky-notes'', ''gone''] ! i)) \<and>
   (GREATEST i. i < length [''com.vixalien.sticky'', ''missing'', ''sticky-notes'', ''gone''] \<and>
      is_available example_host ([''com.vixalien.sticky'', ''missing'', ''sticky-notes'', ''gone''] ! i)) = 2 \<and>
   first_available example_host [''com.vixalien.sticky'', ''missing'', ''sticky-notes'', ''gone'']
     = Some ''sticky-notes''"
proof -
  let ?cs = "[''com.vixalien.sticky'', ''missing'', ''sticky-notes'', ''gone'']"
  have avail2: "is_available example_host (?cs ! 2)"
    by (simp add: is_available_def example_host_def)
  have not3: "\<not> is_available example_host (?cs ! 3)"
    by (simp add: is_available_def example_host_def)
  have ex: "\<exists>i < length ?cs. is_available example_host (?cs ! i)"
    using avail2 by (intro exI[of _ 2]) simp
  have gr: "(GREATEST i. i < length ?cs \<and> is_available example_host (?cs ! i)) = 2"
  proof (rule Greatest_equality)
    show "2 < length ?cs \<and> is_available example_host (?cs ! 2)" using avail2 by simp
  next
    fix y assume y: "y < length ?cs \<and> is_available example_host (?cs ! y)"
    show "y \<le> 2"
    proof (rule ccontr)
      assume "\<not> y \<le> 2"
      with y have "y = 3" by simp
      with y not3 show False by simp
    qed
  qed
  show ?thesis
    using first_available_greatest_index[of example_host ?cs] ex gr by simp
qed

text \<open>
  C10. \<open>safe_disconnect\<close> never throws: for every pair of arguments it returns a boolean;
  when the handler id is falsy it returns true without attempting a disconnect, and any
  exception raised by the disconnect call yields false.
\<close>

theorem safe_disconnect_total:
  "(\<exists>b. fst (safe_disconnect methods handler_id instance) = Inr b) \<and>
   (\<not> truthy handler_id \<longrightarrow> safe_disconnect methods handler_id instance = (Inr True, [])) \<and>
   (truthy handler_id \<and> call_disconnect methods instance handler_id \<noteq> None \<longrightarrow>
      fst (safe_disconnect methods handler_id instance) = Inr False)"
  by (auto simp: safe_disconnect_def split: option.splits)

theorem safe_disconnect_total_witness:
  "\<not> truthy (JNum 0) \<and>
   safe_disconnect (\<lambda>a. Some (\<lambda>hid. None)) (JNum 0) (JObj 1) = (Inr True, []) \<and>
   truthy (JNum 7) \<and>
   call_disconnect (\<lambda>a. Some (\<lambda>hid. Some SpawnError)) (JObj 1) (JNum 7) \<noteq> None \<and>
   fst (safe_disconnect (\<lambda>a. Some (\<lambda>hid. Some SpawnError)) (JNum 7) (JObj 1)) = Inr False"
  using safe_disconnect_total[of "\<lambda>a. Some (\<lambda>hid. None)" "JNum 0" "JObj 1"]
        safe_disconnect_total[of "\<lambda>a. Some (\<lambda>hid. Some SpawnError)" "JNum 7" "JObj 1"]
  by simp

text \<open>
  \<open>revert\<close> calls \<open>safe_disconnect(instance, id)\<close>: the object is taken for the handler
  id and the number, or undefined, for the instance. The call returns false.
\<close>

lemma safe_disconnect_swapped:
  "safe_disconnect methods (JObj a) (JNum k) = (Inr False, [JObj a])"
  "safe_disconnect methods (JObj a) JUndefined = (Inr False, [JObj a])"
  by (simp_all add: safe_disconnect_def)

section \<open>The version string\<close>

text \<open>
  C7. \<open>get_version()\<close> returns the first line of the output of the selected command run
  with \<open>-v\<close> whenever a command is available and that line is shorter than 10 characters,
  and the empty string when no command is available or the line has 10 or more characters.
\<close>

theorem get_version_first_line:
  "(first_available h candidate_commands = None \<longrightarrow> get_version h = Inr []) \<and>
   (\<forall>cmd out_str. first_available h candidate_commands = Some cmd \<and>
        execute h (cmd @ '' -v'') = Some out_str \<longrightarrow>
      get_version h = Inr (if length (first_line out_str) < 10 then first_line out_str else []))"
  by (auto simp: get_version_def Let_def candidate_commands_def split: option.splits
      dest!: first_available_mem)


theorem get_version_first_line_witness:
  "first_available bare_host candidate_commands = None \<and>
   get_version bare_host = Inr [] \<and>
   first_available example_host candidate_commands = Some ''com.vixalien.sticky'' \<and>
   execute example_host (''com.vixalien.sticky'' @ '' -v'') = Some (''0.2.1'' @ [CHR 0x0A]) \<and>
   get_version example_host = Inr ''0.2.1''"
proof -
  have none: "first_available bare_host candidate_commands = None"
    by code_simp
  have some: "first_available example_host candidate_commands = Some ''com.vixalien.sticky''"
    by code_simp
  have out: "execute example_host (''com.vixalien.sticky'' @ '' -v'') = Some (''0.2.1'' @ [CHR 0x0A])"
    by (simp add: execute_def example_host_def)
  have line: "first_line (''0.2.1'' @ [CHR 0x0A]) = ''0.2.1''"
    by (simp add: first_line_def)
  show ?thesis
    using get_version_first_line[of bare_host] get_version_first_line[of example_host]
      none some out line
    by simp
qed


section \<open>Launching\<close>

lemma execute_async_started:
  "shell_parse_argv h c = Parsed argv \<Longrightarrow> spawnv h argv = Some proc \<Longrightarrow>
   execute_async h (Some c) = (Inr 0, [Spawn argv])"
  by (simp add: execute_async_def)

lemma execute_async_result: "fst (execute_async h command) = Inr exit \<Longrightarrow> exit = 0"
  by (auto simp: execute_async_def split: option.splits parse_result.splits)

lemma launch_started:
  assumes "\<not> launch_lock s"
    "shell_parse_argv h AppInfo_process = Parsed argv" "spawnv h argv = Some proc"
  shows "fst (launch h s) = Inr (JBool True)"
  using assms by (simp add: launch_def Let_def record_effects_def execute_async_started)

text \<open>
  C2. Called with the launch lock clear and a subprocess that starts, \<open>launch()\<close> returns
  true if and only if the launch command exited successfully. Here the command starts
  and exits with status 1, and \<open>launch()\<close> returns true.
\<close>

theorem launch_true_on_failed_exit:
  "\<not> launch_lock (enable example_host example_settings []) \<and>
   AppInfo_process = ''com.vixalien.sticky'' \<and>
   shell_parse_argv example_host ''com.vixalien.sticky'' = Parsed [''com.vixalien.sticky''] \<and>
   map_option communicate_callback (spawnv example_host [''com.vixalien.sticky'']) = Some 1 \<and>
   fst (launch example_host (enable example_host example_settings [])) = Inr (JBool True)"
  by code_simp

section \<open>Button presses\<close>

lemma onButtonPress_ignored:
  "last_event s = Some t \<Longrightarrow> t \<noteq> 0 \<Longrightarrow> int (get_time ev) - int t < 200 \<Longrightarrow>
   onButtonPress h window_actors ev s = (Inr (), s)"
  by (simp add: onButtonPress_def ignored_def)

text \<open>
  C6. A button press that arrives less than 200 milliseconds after the previously handled
  one runs no bound quick action, and only presses that are not ignored update the stored
  time. Here a press at time 0 is handled, which stores 0, and the press 100 milliseconds
  later closes the menu and minimizes the note again.
\<close>

theorem press_after_time_zero_not_ignored:
  "(let s0 = enable example_host example_settings [note_window 1];
        s1 = snd (onButtonPress example_host [note_window 1] (press 0) s0);
        s2 = snd (onButtonPress example_host [note_window 1] (press 100) s1)
    in bindings s0 Left_Button_Press = Some Hide_All \<and>
       last_event s1 = Some 0 \<and>
       effects s1 = [Menu_close, Minimize 1] \<and>
       int (get_time (press 100)) - int (get_time (press 0)) < 200 \<and>
       effects s2 = [Menu_close, Minimize 1, Menu_close, Minimize 1] \<and>
       last_event s2 = Some 100)"
  by code_simp

section \<open>The background menu\<close>

text \<open>
  With one monitor whose menu has the four entries of the shell, \<open>_update\<close> leaves the
  entry New Note in the menu exactly when it should be there.
\<close>

lemma has_new_note_defaults:
  "\<forall>x \<in> set defaults. \<exists>k. x = Default_item k \<Longrightarrow> \<not> has_new_note defaults"
  by (auto simp: has_new_note_def list_ex_iff)

lemma update_single_manager:
  assumes len: "length defaults = DEFAULT_BGMENU_ITEMS"
    and dflt: "\<forall>x \<in> set defaults. \<exists>k. x = Default_item k"
    and shape: "bg_managers b = [defaults] \<or>
      (\<exists>k j. bg_managers b = [New_note_item k # Separator_item j # defaults] \<and>
         new_note_menu_item b = Some (New_note_item k) \<and>
         separator_menu_item b = Some (Separator_item j))"
  shows "\<exists>b'. update visible is_active b = Inr b' \<and>
      has_new_note (bg_managers b' ! 0) =
        (visible = Visibility_Always \<or> (visible = Visibility_Dynamic \<and> is_active)) \<and>
      (bg_managers b' = [defaults] \<or>
       (\<exists>k j. bg_managers b' = [New_note_item k # Separator_item j # defaults] \<and>
          new_note_menu_item b' = Some (New_note_item k) \<and>
          separator_menu_item b' = Some (Separator_item j)))"
proof -
  have none: "\<not> has_new_note defaults" using dflt by (rule has_new_note_defaults)
  have keep: "filter (\<lambda>x. x \<noteq> New_note_item k) defaults = defaults"
             "filter (\<lambda>x. x \<noteq> Separator_item j) defaults = defaults" for k j
    using dflt by (auto simp: filter_id_conv)
  from shape show ?thesis
  proof
    assume plain: "bg_managers b = [defaults]"
    then have not_over: "isOverriden b = Inr False" using len by (simp add: isOverriden_def)
    show ?thesis using plain not_over none
      by (simp add: update_def Let_def apply_override_def apply_one_def has_new_note_def)
  next
    assume "\<exists>k j. bg_managers b = [New_note_item k # Separator_item j # defaults] \<and>
         new_note_menu_item b = Some (New_note_item k) \<and>
         separator_menu_item b = Some (Separator_item j)"
    then obtain k j where over: "bg_managers b = [New_note_item k # Separator_item j # defaults]"
      "new_note_menu_item b = Some (New_note_item k)"
      "separator_menu_item b = Some (Separator_item j)" by blast
    then have is_over: "isOverriden b = Inr True" using len
      by (simp add: isOverriden_def DEFAULT_BGMENU_ITEMS_def)
    show ?thesis using over is_over none keep
      by (simp add: update_def Let_def revert_def destroy_def has_new_note_def)
  qed
qed

text \<open>
  C3. After every call to \<open>_update\<close>, the entry New Note is in the background menu if and
  only if the setting is Always, or is Dynamic while the interface is active. Here, with
  two monitors, \<open>_update\<close> under Always adds the entry to both menus, and \<open>_update\<close> under
  Never then removes it from the second menu only.
\<close>

theorem revert_leaves_first_monitor:
  "(case update Visibility_Always False two_monitors of
      Inl e \<Rightarrow> False
    | Inr b1 \<Rightarrow>
        map has_new_note (bg_managers b1) = [True, True] \<and>
        (case update Visibility_Never False b1 of
           Inl e \<Rightarrow> False
         | Inr b2 \<Rightarrow> map has_new_note (bg_managers b2) = [True, False]))"
  by code_simp

section \<open>Refreshing\<close>

lemma fold_keeps:
  assumes "\<And>x s. g (f x s) = g s"
  shows "g (fold f xs s) = g s"
  using assms by (induction xs arbitrary: s) simp_all

lemma icon_matches_fields: "kept_fields s' = kept_fields s \<Longrightarrow> icon_matches s' = icon_matches s"
  by (simp add: icon_matches_def kept_fields_def active_def)

lemma kept_fields_record_effects: "kept_fields (record_effects es s) = kept_fields s"
  by (simp add: kept_fields_def record_effects_def)

lemma kept_fields_show: "kept_fields (snd (show_notes a n nf s)) = kept_fields s"
  by (simp add: show_notes_def kept_fields_record_effects split: prod.splits)

lemma kept_fields_hide: "kept_fields (snd (hide a n nf s)) = kept_fields s"
  by (simp add: hide_def kept_fields_record_effects split: prod.splits)

lemma kept_fields_close: "kept_fields (snd (close a n nf s)) = kept_fields s"
  by (simp add: close_def kept_fields_record_effects split: prod.splits)

lemma kept_fields_toggle: "kept_fields (toggle a s) = kept_fields s"
  by (simp add: toggle_def kept_fields_show kept_fields_hide)

lemma kept_fields_stack: "kept_fields (snd (stack h a x y s)) = kept_fields s"
  by (simp add: stack_def kept_fields_record_effects split: prod.splits)

lemma kept_fields_lock: "kept_fields (s\<lparr>launch_lock := b\<rparr>) = kept_fields s"
  by (simp add: kept_fields_def)

lemma kept_fields_tasks: "kept_fields (s\<lparr>launch_tasks := ts\<rparr>) = kept_fields s"
  by (simp add: kept_fields_def)

lemma kept_fields_last_event: "kept_fields (s\<lparr>last_event := t\<rparr>) = kept_fields s"
  by (simp add: kept_fields_def)

lemma kept_fields_launch: "kept_fields (snd (launch h s)) = kept_fields s"
  by (simp add: launch_def Let_def kept_fields_record_effects kept_fields_lock
      split: prod.splits sum.splits)

lemma kept_fields_new: "kept_fields (snd (new h a at s)) = kept_fields s"
  by (simp add: new_def Let_def kept_fields_record_effects kept_fields_lock kept_fields_tasks
      kept_fields_close split: prod.splits sum.splits)

lemma snd_outcome:
  "snd (case x of (Inl e, s') \<Rightarrow> (Inl e, s') | (Inr r, s') \<Rightarrow> (Inr (f r s'), g s')) =
     (case fst x of Inl e \<Rightarrow> snd x | Inr r \<Rightarrow> g (snd x))"
  by (cases x; cases "fst x") auto

lemma snd_outcome_same:
  "snd (case x of (Inl e, s') \<Rightarrow> (Inl e, s') | (Inr r, s') \<Rightarrow> (Inr (f r), s')) = snd x"
  by (cases x; cases "fst x") auto

lemma kept_fields_run_action: "kept_fields (snd (run_action h a act s)) = kept_fields s"
proof (cases act)
  case New_Note
  then show ?thesis by (simp add: snd_outcome_same kept_fields_new)
next
  case Launch
  then show ?thesis by (simp add: snd_outcome_same kept_fields_launch)
qed (simp_all add: kept_fields_toggle kept_fields_show kept_fields_hide kept_fields_close
      kept_fields_stack)

lemma kept_fields_menu_override: "kept_fields (snd (menu_override h a b s)) = kept_fields s"
  by (simp add: menu_override_def kept_fields_run_action kept_fields_record_effects
      split: option.splits)

lemma kept_fields_call_binding: "kept_fields (snd (call_binding h a b s)) = kept_fields s"
  by (simp add: call_binding_def kept_fields_run_action split: option.splits)

lemma kept_fields_onButtonPress: "kept_fields (snd (onButtonPress h a ev s)) = kept_fields s"
  by (simp add: onButtonPress_def snd_outcome kept_fields_menu_override kept_fields_last_event
      split: sum.splits)

lemma kept_fields_onScroll: "kept_fields (snd (onScroll h a ev s)) = kept_fields s"
  by (simp add: onScroll_def snd_outcome kept_fields_call_binding kept_fields_last_event
      split: sum.splits)

lemma kept_fields_run_task: "kept_fields (run_task a t s) = kept_fields s"
  by (cases t) (simp_all add: kept_fields_hide kept_fields_record_effects)

lemma kept_fields_on_window_opened: "kept_fields (on_window_opened a s) = kept_fields s"
proof -
  have "kept_fields (fold (run_task a) (launch_tasks s) s) = kept_fields s"
    by (rule fold_keeps) (rule kept_fields_run_task)
  then show ?thesis by (simp add: on_window_opened_def kept_fields_def)
qed

lemma kept_fields_emit_window_opened: "kept_fields (emit_window_opened a w s) = kept_fields s"
  by (simp add: emit_window_opened_def kept_fields_on_window_opened kept_fields_record_effects)

lemma icon_matches_updateIcon: "icon_matches (updateIcon s)"
  by (simp add: icon_matches_def updateIcon_def active_def)

lemma kept_fields_updateLabel: "kept_fields (updateLabel s) = kept_fields s"
  by (simp add: updateLabel_def kept_fields_def)

lemma kept_fields_updateMenu: "kept_fields (updateMenu s) = kept_fields s"
  by (simp add: updateMenu_def kept_fields_def)

lemma icon_matches_updateVisibility: "icon_matches s \<Longrightarrow> icon_matches (updateVisibility s)"
proof -
  assume ok: "icon_matches s"
  have hidden: "icon_matches (s\<lparr>icon_visible := False, label_visible := False, box_visible := False\<rparr>)"
    using ok by (simp add: icon_matches_def active_def)
  have shown: "icon_matches (updateLabel (updateIcon (s\<lparr>box_visible := True\<rparr>)))"
    using icon_matches_fields[OF kept_fields_updateLabel] icon_matches_updateIcon by simp
  show ?thesis using hidden shown by (simp add: updateVisibility_def Let_def)
qed

lemma icon_matches_notify_active: "icon_matches (notify_active s)"
  unfolding notify_active_def
  by (intro icon_matches_updateVisibility)
     (simp add: icon_matches_fields[OF kept_fields_updateMenu] icon_matches_updateIcon)

lemma icon_matches_loadIcons: "icon_matches (loadIcons h s)"
  by (simp add: loadIcons_def icon_matches_updateIcon)

lemma n_windows_updateIcon: "n_windows (updateIcon s) = n_windows s"
  by (simp add: updateIcon_def)

lemma n_windows_updateLabel: "n_windows (updateLabel s) = n_windows s"
  by (simp add: updateLabel_def)

lemma n_windows_updateVisibility: "n_windows (updateVisibility s) = n_windows s"
  by (simp add: updateVisibility_def Let_def n_windows_updateIcon n_windows_updateLabel)

lemma n_windows_notify:
  "n_windows (notify_active (notify_n_windows s)) = n_windows s"
  by (simp add: notify_active_def notify_n_windows_def n_windows_updateVisibility
      n_windows_updateIcon n_windows_updateLabel updateMenu_def record_effects_def)

lemma n_windows_kept: "kept_fields s' = kept_fields s \<Longrightarrow> n_windows s' = n_windows s"
  by (simp add: kept_fields_def)

text \<open>What \<open>refresh\<close> leaves: the count it read, and an icon that matches.\<close>

lemma refresh_n_windows:
  "n_windows (snd (refresh h a s)) = MultiWindowHandler_count a AppInfo_wm_class False"
proof (cases "n_windows s = MultiWindowHandler_count a AppInfo_wm_class False")
  case True
  then show ?thesis by (simp add: refresh_def)
next
  case False
  then show ?thesis
    by (simp add: refresh_def Let_def snd_outcome n_windows_notify
        n_windows_kept[OF kept_fields_launch] split: sum.splits)
qed

lemma refresh_icon_matches:
  assumes "icon_matches s"
  shows "icon_matches (snd (refresh h a s))"
proof (cases "n_windows s = MultiWindowHandler_count a AppInfo_wm_class False")
  case True
  then show ?thesis using assms by (simp add: refresh_def)
next
  case False
  have launch: "\<And>s. icon_matches (snd (launch h s)) = icon_matches s"
    by (rule icon_matches_fields[OF kept_fields_launch])
  have tasks: "\<And>s ts. icon_matches (s\<lparr>launch_tasks := ts\<rparr>) = icon_matches s"
    by (rule icon_matches_fields[OF kept_fields_tasks])
  show ?thesis using False
    by (simp add: refresh_def Let_def snd_outcome launch tasks icon_matches_notify_active
        split: sum.splits)
qed

lemma step_icon_matches: "icon_matches s \<Longrightarrow> icon_matches (step h ev s)"
proof (cases ev)
  case (Refresh a)
  assume "icon_matches s"
  then show ?thesis using Refresh by (simp add: refresh_icon_matches)
next
  case (Changed_keep_alive b)
  assume "icon_matches s"
  then show ?thesis using Changed_keep_alive by (simp add: icon_matches_def active_def)
next
  case (Changed_use_builtin_icon b)
  then show ?thesis by (simp add: icon_matches_loadIcons)
next
  case (Changed_show_open_note_count b)
  assume "icon_matches s"
  then show ?thesis using Changed_show_open_note_count
    by (simp add: icon_matches_fields[OF kept_fields_updateLabel])
       (simp add: icon_matches_def active_def)
next
  case (Changed_show_panel_indicator v)
  assume "icon_matches s"
  then have "icon_matches (s\<lparr>settings := (settings s)\<lparr>show_panel_indicator := v\<rparr>\<rparr>)"
    by (simp add: icon_matches_def active_def)
  then show ?thesis using Changed_show_panel_indicator
    by (simp add: icon_matches_updateVisibility)
next
  case (Changed_trigger trg v)
  assume "icon_matches s"
  then show ?thesis using Changed_trigger
    by (simp add: bindAction_def icon_matches_def active_def)
next
  case (Button_press e a)
  assume "icon_matches s"
  then show ?thesis using Button_press
    by (simp add: icon_matches_fields[OF kept_fields_onButtonPress])
next
  case (Scroll e a)
  assume "icon_matches s"
  then show ?thesis using Scroll
    by (simp add: icon_matches_fields[OF kept_fields_onScroll])
qed

lemma enable_icon_matches: "icon_matches (enable h st a)"
  unfolding enable_def StickyNotesIndicator_init_def
  by (intro icon_matches_updateVisibility)
     (simp add: icon_matches_fields[OF kept_fields_updateMenu]
        icon_matches_fields[OF kept_fields_updateLabel] icon_matches_updateIcon)

lemma run_icon_matches: "icon_matches s \<Longrightarrow> icon_matches (run h evs s)"
  unfolding run_def by (induction evs arbitrary: s) (simp_all add: step_icon_matches)

lemma loaded_kept: "kept_fields s' = kept_fields s \<Longrightarrow> icons_loaded h s' = icons_loaded h s"
  by (simp add: icons_loaded_def kept_fields_def)

lemma icons_loaded_updateIcon: "icons_loaded h (updateIcon s) = icons_loaded h s"
  by (simp add: icons_loaded_def updateIcon_def)

lemma icons_loaded_loadIcons: "icons_loaded h (loadIcons h s)"
  by (simp add: loadIcons_def icons_loaded_updateIcon) (simp add: icons_loaded_def)

lemma icons_loaded_updateVisibility: "icons_loaded h (updateVisibility s) = icons_loaded h s"
  by (simp add: updateVisibility_def Let_def loaded_kept[OF kept_fields_updateLabel]
      icons_loaded_updateIcon)
     (simp add: icons_loaded_def)

lemma icons_loaded_notify:
  "icons_loaded h (notify_active (notify_n_windows s)) = icons_loaded h s"
  by (simp add: notify_active_def notify_n_windows_def icons_loaded_updateVisibility
      loaded_kept[OF kept_fields_updateMenu] icons_loaded_updateIcon
      loaded_kept[OF kept_fields_updateLabel] loaded_kept[OF kept_fields_record_effects])

lemma icons_loaded_fold_emit:
  "icons_loaded h (fold (emit_window_opened a) ws s) = icons_loaded h s"
  by (induction ws arbitrary: s) (simp_all add: loaded_kept[OF kept_fields_emit_window_opened])

lemma icons_loaded_n_windows: "icons_loaded h (s\<lparr>n_windows := n\<rparr>) = icons_loaded h s"
  by (simp add: icons_loaded_def)

lemma icons_loaded_refresh: "icons_loaded h (snd (refresh h' a s)) = icons_loaded h s"
  by (simp add: refresh_def Let_def snd_outcome icons_loaded_notify icons_loaded_n_windows
      icons_loaded_fold_emit loaded_kept[OF kept_fields_launch] loaded_kept[OF kept_fields_tasks]
      split: sum.splits)

lemma icons_loaded_step: "icons_loaded h s \<Longrightarrow> icons_loaded h (step h ev s)"
proof (cases ev)
  case (Refresh a)
  assume "icons_loaded h s"
  then show ?thesis using Refresh by (simp add: icons_loaded_refresh)
next
  case (Changed_keep_alive b)
  assume "icons_loaded h s"
  then show ?thesis using Changed_keep_alive by (simp add: icons_loaded_def)
next
  case (Changed_use_builtin_icon b)
  then show ?thesis by (simp add: icons_loaded_loadIcons)
next
  case (Changed_show_open_note_count b)
  assume "icons_loaded h s"
  then show ?thesis using Changed_show_open_note_count
    by (simp add: loaded_kept[OF kept_fields_updateLabel]) (simp add: icons_loaded_def)
next
  case (Changed_show_panel_indicator v)
  assume "icons_loaded h s"
  then show ?thesis using Changed_show_panel_indicator
    by (simp add: icons_loaded_updateVisibility) (simp add: icons_loaded_def)
next
  case (Changed_trigger trg v)
  assume "icons_loaded h s"
  then show ?thesis using Changed_trigger
    by (simp add: bindAction_def icons_loaded_def)
next
  case (Button_press e a)
  assume "icons_loaded h s"
  then show ?thesis using Button_press
    by (simp add: loaded_kept[OF kept_fields_onButtonPress])
next
  case (Scroll e a)
  assume "icons_loaded h s"
  then show ?thesis using Scroll
    by (simp add: loaded_kept[OF kept_fields_onScroll])
qed

lemma icons_loaded_enable: "icons_loaded h (enable h st a)"
  by (simp add: enable_def StickyNotesIndicator_init_def icons_loaded_updateVisibility
      loaded_kept[OF kept_fields_updateMenu] loaded_kept[OF kept_fields_updateLabel]
      icons_loaded_updateIcon icons_loaded_loadIcons)

lemma icons_loaded_run: "icons_loaded h s \<Longrightarrow> icons_loaded h (run h evs s)"
  unfolding run_def by (induction evs arbitrary: s) (simp_all add: icons_loaded_step)

lemma builtin_icons_differ: "p @ ''/window-pin.svg'' \<noteq> p @ ''/window-unpin.svg''"
  by simp

text \<open>
  C4, as stated. After every \<open>refresh()\<close> the indicator's icon is the active icon exactly
  when \<open>active\<close> is true. With \<open>use-builtin-icon\<close> off, \<open>_loadIcons\<close> assigns the themed
  icon to both fields: after a refresh that finds no window, \<open>active\<close> is false and the icon
  is the active icon.
\<close>

theorem refresh_icon_not_exactly_when_active:
  "\<not> active (snd (refresh example_host []
         (enable example_host themed_settings [note_window 1]))) \<and>
   gicon (snd (refresh example_host []
         (enable example_host themed_settings [note_window 1]))) =
   active_icon (snd (refresh example_host []
         (enable example_host themed_settings [note_window 1]))) \<and>
   gicon (snd (refresh example_host []
         (enable example_host themed_settings [note_window 1]))) = Some ''view-pin-symbolic''"
  by code_simp

text \<open>
  C4, amended. After every \<open>refresh()\<close>, \<open>active\<close> is true if and only if the number of
  windows whose WM_CLASS is the application's class identifier is nonzero, and the
  indicator's icon is the one held as active icon when \<open>active\<close> is true and the one held
  as inactive icon otherwise. With \<open>use-builtin-icon\<close> on, these are the extension's
  \<open>window-pin.svg\<close> and \<open>window-unpin.svg\<close>, and the icon is the active icon exactly when
  \<open>active\<close> is true; with it off, both are the themed icon \<open>view-pin-symbolic\<close>. The states
  are those that the enabled extension reaches through its events.
\<close>

theorem refresh_active_and_loaded_icon:
  "(let s = run h evs (enable h st actors0);
        s' = snd (refresh h window_actors s)
    in active s' = (length (filter (\<lambda>w. get_wm_class w = Some AppInfo_wm_class) window_actors) \<noteq> 0)
       \<and> gicon s' = (if active s' then active_icon s' else inactive_icon s')
       \<and> (if use_builtin_icon (settings s') then
            active_icon s' = Some (icons_path h @ ''/window-pin.svg'') \<and>
            inactive_icon s' = Some (icons_path h @ ''/window-unpin.svg'') \<and>
            (gicon s' = active_icon s') = active s'
          else
            active_icon s' = Some ''view-pin-symbolic'' \<and>
            inactive_icon s' = Some ''view-pin-symbolic''))"
proof -
  define s' where "s' = snd (refresh h window_actors (run h evs (enable h st actors0)))"
  have matches: "icon_matches s'"
    unfolding s'_def by (intro refresh_icon_matches run_icon_matches enable_icon_matches)
  have "icons_loaded h (run h evs (enable h st actors0))"
    by (intro icons_loaded_run icons_loaded_enable)
  then have loaded: "icons_loaded h s'"
    unfolding s'_def by (simp add: icons_loaded_refresh)
  have count: "active s' =
      (length (filter (\<lambda>w. get_wm_class w = Some AppInfo_wm_class) window_actors) \<noteq> 0)"
    unfolding s'_def by (simp add: active_def refresh_n_windows count_eq_length_filter)
  have icon: "gicon s' = (if active s' then active_icon s' else inactive_icon s')"
    using matches by (simp add: icon_matches_def)
  have rest: "if use_builtin_icon (settings s') then
            active_icon s' = Some (icons_path h @ ''/window-pin.svg'') \<and>
            inactive_icon s' = Some (icons_path h @ ''/window-unpin.svg'') \<and>
            (gicon s' = active_icon s') = active s'
          else
            active_icon s' = Some ''view-pin-symbolic'' \<and>
            inactive_icon s' = Some ''view-pin-symbolic''"
    using loaded icon by (auto simp: icons_loaded_def)
  show ?thesis
    using count icon rest unfolding Let_def s'_def[symmetric] by blast
qed

theorem refresh_active_and_loaded_icon_witness:
  "(let s = run example_host [Refresh [], Button_press (press 7) []]
              (enable example_host example_settings [note_window 1]);
        s' = snd (refresh example_host [note_window 1, terminal_window 2, note_window 3] s)
    in (active s' =
         (length (filter (\<lambda>w. get_wm_class w = Some AppInfo_wm_class)
            [note_window 1, terminal_window 2, note_window 3]) \<noteq> 0)
       \<and> gicon s' = (if active s' then active_icon s' else inactive_icon s')
       \<and> (if use_builtin_icon (settings s') then
            active_icon s' = Some (icons_path example_host @ ''/window-pin.svg'') \<and>
            inactive_icon s' = Some (icons_path example_host @ ''/window-unpin.svg'') \<and>
            (gicon s' = active_icon s') = active s'
          else
            active_icon s' = Some ''view-pin-symbolic'' \<and>
            inactive_icon s' = Some ''view-pin-symbolic''))
       \<and> active s' \<and> use_builtin_icon (settings s')
       \<and> gicon s' = Some ''/ext/icons/window-pin.svg'')"
proof -
  have general:
    "(let s = run example_host [Refresh [], Button_press (press 7) []]
                (enable example_host example_settings [note_window 1]);
          s' = snd (refresh example_host [note_window 1, terminal_window 2, note_window 3] s)
      in active s' =
           (length (filter (\<lambda>w. get_wm_class w = Some AppInfo_wm_class)
              [note_window 1, terminal_window 2, note_window 3]) \<noteq> 0)
         \<and> gicon s' = (if active s' then active_icon s' else inactive_icon s')
         \<and> (if use_builtin_icon (settings s') then
              active_icon s' = Some (icons_path example_host @ ''/window-pin.svg'') \<and>
              inactive_icon s' = Some (icons_path example_host @ ''/window-unpin.svg'') \<and>
              (gicon s' = active_icon s') = active s'
            else
              active_icon s' = Some ''view-pin-symbolic'' \<and>
              inactive_icon s' = Some ''view-pin-symbolic''))"
    by (rule refresh_active_and_loaded_icon)
  have here:
    "(let s = run example_host [Refresh [], Button_press (press 7) []]
                (enable example_host example_settings [note_window 1]);
          s' = snd (refresh example_host [note_window 1, terminal_window 2, note_window 3] s)
      in active s' \<and> use_builtin_icon (settings s') \<and>
         gicon s' = Some ''/ext/icons/window-pin.svg'')"
    by code_simp
  show ?thesis
    using general here unfolding Let_def by blast
qed


section \<open>Relaunching\<close>

lemma launches_append: "launches (xs @ ys) = launches xs @ launches ys"
  by (simp add: launches_def)

lemma launches_minimize: "launches (fst (MultiWindowHandler_minimize a c n nf)) = []"
  by (simp add: MultiWindowHandler_minimize_def launches_def Let_def filter_empty_conv)

lemma launches_moveTo: "launches (fst (MultiWindowHandler_moveTo a c x y m n nf)) = []"
  by (auto simp: MultiWindowHandler_moveTo_def launches_def Let_def filter_empty_conv
      split: option.splits)

lemma launches_run_task: "launches (effects (run_task a t s)) = launches (effects s)"
  by (cases t)
     (simp_all add: hide_def record_effects_def launches_append launches_moveTo
        split: prod.splits,
      metis fst_conv launches_minimize)

lemma keep_alive_run_task: "keep_alive (run_task a t s) = keep_alive s"
  by (cases t) (simp_all add: hide_def record_effects_def split: prod.splits)

lemma launches_on_window_opened:
  "launches (effects (on_window_opened a s)) = launches (effects s)"
proof -
  have "launches (effects (fold (run_task a) (launch_tasks s) s)) = launches (effects s)"
    by (rule fold_keeps) (rule launches_run_task)
  then show ?thesis by (simp add: on_window_opened_def)
qed

lemma keep_alive_on_window_opened: "keep_alive (on_window_opened a s) = keep_alive s"
proof -
  have "keep_alive (fold (run_task a) (launch_tasks s) s) = keep_alive s"
    by (rule fold_keeps) (rule keep_alive_run_task)
  then show ?thesis by (simp add: on_window_opened_def)
qed

lemma emit_window_opened_keeps:
  "launches (effects (emit_window_opened a w s)) = launches (effects s)"
  "keep_alive (emit_window_opened a w s) = keep_alive s"
  by (simp_all add: emit_window_opened_def launches_on_window_opened keep_alive_on_window_opened
      record_effects_def launches_append)
     (simp add: launches_def)

lemma launch_fields_updateIcon: "launch_fields (updateIcon s) = launch_fields s"
  by (simp add: updateIcon_def launch_fields_def)

lemma launch_fields_updateLabel: "launch_fields (updateLabel s) = launch_fields s"
  by (simp add: updateLabel_def launch_fields_def)

lemma launch_fields_updateMenu: "launch_fields (updateMenu s) = launch_fields s"
  by (simp add: updateMenu_def launch_fields_def)

lemma launch_fields_updateVisibility: "launch_fields (updateVisibility s) = launch_fields s"
  by (simp add: updateVisibility_def Let_def launch_fields_updateLabel launch_fields_updateIcon)
     (simp add: launch_fields_def)

lemma launch_fields_record_notify:
  "launch_fields (record_effects [Notify name] s) = launch_fields s"
  by (simp add: launch_fields_def record_effects_def launches_def)

lemma launch_fields_notify:
  "launch_fields (notify_active (notify_n_windows s)) = launch_fields s"
  by (simp add: notify_active_def notify_n_windows_def launch_fields_updateVisibility
      launch_fields_updateMenu launch_fields_updateIcon launch_fields_updateLabel
      launch_fields_record_notify)

lemma fold_emit_window_opened_keeps:
  "launches (effects (fold (emit_window_opened a) ws s)) = launches (effects s)"
  "keep_alive (fold (emit_window_opened a) ws s) = keep_alive s"
  by (induction ws arbitrary: s) (simp_all add: emit_window_opened_keeps)

lemma get_loop_no_match:
  "\<forall>w \<in> set actors. get_wm_class w \<noteq> Some c \<Longrightarrow> get_loop c n actors windows wcount = windows"
  by (induction actors arbitrary: windows wcount) simp_all

lemma get_empty_when_count_zero:
  assumes "MultiWindowHandler_count a c False = 0"
  shows "MultiWindowHandler_get a c n nf = []"
proof -
  from assms have "filter (\<lambda>w. get_wm_class w = Some c) a = []"
    by (simp add: count_eq_length_filter)
  then have "\<forall>w \<in> set a. get_wm_class w \<noteq> Some c"
    by (simp add: filter_empty_conv)
  then show ?thesis
    by (simp add: MultiWindowHandler_get_def get_loop_no_match)
qed

lemma launch_effects:
  "effects (snd (launch h s)) =
     effects s @ Launch_called # (if launch_lock s then [] else snd (execute_async h (Some AppInfo_process)))"
  by (simp add: launch_def Let_def record_effects_def split: prod.splits sum.splits)

lemma launches_Launch_called: "launches (Launch_called # es) = Launch_called # launches es"
  by (simp add: launches_def)

text \<open>
  C5. \<open>refresh()\<close> calls \<open>launch()\<close> only when keep-alive is on, the launch lock is clear
  and the count of matching windows has just become zero; in every other state it neither
  calls \<open>launch()\<close> nor starts a subprocess.
\<close>

theorem refresh_launches_only_after_close:
  "launches (effects (snd (refresh h window_actors s))) =
     launches (effects s) @
       (if keep_alive s \<and> \<not> launch_lock s \<and> n_windows s \<noteq> 0 \<and>
           MultiWindowHandler_count window_actors AppInfo_wm_class False = 0
        then Launch_called # launches (snd (execute_async h (Some AppInfo_process)))
        else [])"
proof -
  define n where "n = MultiWindowHandler_count window_actors AppInfo_wm_class False"
  define s1 where "s1 =
    (if truthy (JNum (int n - int (n_windows s))) then
       fold (emit_window_opened window_actors)
         (MultiWindowHandler_get window_actors AppInfo_wm_class (int n - int (n_windows s)) True) s
     else s)"
  define s2 where "s2 = notify_active (notify_n_windows (s1\<lparr>n_windows := n\<rparr>))"
  have s1_launches: "launches (effects s1) = launches (effects s)"
    unfolding s1_def by (simp add: fold_emit_window_opened_keeps)
  have s1_keep: "keep_alive s1 = keep_alive s"
    unfolding s1_def by (simp add: fold_emit_window_opened_keeps)
  have s1_zero: "n = 0 \<Longrightarrow> s1 = s"
    unfolding s1_def n_def by (simp add: get_empty_when_count_zero)
  have "launch_fields s2 = launch_fields (s1\<lparr>n_windows := n\<rparr>)"
    unfolding s2_def by (rule launch_fields_notify)
  then have s2_fields: "keep_alive s2 = keep_alive s" "launch_lock s2 = launch_lock s1"
    "launches (effects s2) = launches (effects s)"
    using s1_launches s1_keep by (simp_all add: launch_fields_def)
  have "n_windows s2 = n"
    unfolding s2_def by (simp add: n_windows_notify)
  then have s2_active: "active s2 = (n \<noteq> 0)"
    by (simp add: active_def)
  show ?thesis
  proof (cases "n_windows s = n")
    case True
    then show ?thesis by (auto simp: refresh_def n_def[symmetric])
  next
    case changed: False
    have unfold: "refresh h window_actors s =
      (if active s2 then (Inr (JBool True), s2)
       else if keep_alive s2 \<and> \<not> launch_lock s2 then
         (case launch h s2 of
            (Inl e, s3) \<Rightarrow> (Inl e, s3)
          | (Inr r, s3) \<Rightarrow> (Inr (JBool True), s3\<lparr>launch_tasks := launch_tasks s3 @ [Task_hide]\<rparr>))
       else (Inr (JBool True), s2))"
      using changed by (simp add: refresh_def Let_def n_def[symmetric] s1_def s2_def)
    show ?thesis
    proof (cases "n = 0")
      case False
      then show ?thesis using s2_active s2_fields by (simp add: unfold n_def[symmetric])
    next
      case True
      with changed have old: "n_windows s \<noteq> 0" by simp
      have lock: "launch_lock s2 = launch_lock s" using s2_fields(2) s1_zero[OF True] by simp
      show ?thesis
      proof (cases "keep_alive s \<and> \<not> launch_lock s")
        case False
        then show ?thesis using True s2_active s2_fields lock
          by (auto simp: unfold n_def[symmetric])
      next
        case relaunch: True
        have "effects (snd (refresh h window_actors s)) = effects (snd (launch h s2))"
          using True relaunch s2_active s2_fields(1) lock
          by (simp add: unfold snd_outcome split: sum.splits)
        then show ?thesis
          using True relaunch old lock s2_fields(3)
          by (simp add: launch_effects launches_append launches_Launch_called n_def[symmetric])
      qed
    qed
  qed
qed

theorem refresh_launches_only_after_close_witness:
  "(keep_alive (enable example_host example_settings [note_window 1]) \<and>
    \<not> launch_lock (enable example_host example_settings [note_window 1]) \<and>
    n_windows (enable example_host example_settings [note_window 1]) \<noteq> 0 \<and>
    MultiWindowHandler_count [terminal_window 2] AppInfo_wm_class False = 0) \<and>
   launches (effects (snd (refresh example_host [terminal_window 2]
      (enable example_host example_settings [note_window 1])))) =
     [Launch_called, Spawn [''com.vixalien.sticky'']]"
proof -
  let ?s = "enable example_host example_settings [note_window 1]"
  have cond: "keep_alive ?s \<and> \<not> launch_lock ?s \<and> n_windows ?s \<noteq> 0 \<and>
      MultiWindowHandler_count [terminal_window 2] AppInfo_wm_class False = 0"
    by code_simp
  have before: "launches (effects ?s) = []"
    by code_simp
  have started: "launches (snd (execute_async example_host (Some AppInfo_process))) =
      [Spawn [''com.vixalien.sticky'']]"
    by code_simp
  show ?thesis
    using refresh_launches_only_after_close[of example_host "[terminal_window 2]" ?s]
      cond before started
    by simp
qed

lemma mirrors_kept: "kept_fields s' = kept_fields s \<Longrightarrow> keep_alive_mirrors s' = keep_alive_mirrors s"
  by (simp add: keep_alive_mirrors_def kept_fields_def)

lemma mirrors_updateIcon: "keep_alive_mirrors (updateIcon s) = keep_alive_mirrors s"
  by (simp add: keep_alive_mirrors_def updateIcon_def)

lemma mirrors_updateVisibility: "keep_alive_mirrors (updateVisibility s) = keep_alive_mirrors s"
  by (simp add: updateVisibility_def Let_def mirrors_kept[OF kept_fields_updateLabel]
      mirrors_updateIcon)
     (simp add: keep_alive_mirrors_def)

lemma mirrors_notify:
  "keep_alive_mirrors (notify_active (notify_n_windows s)) = keep_alive_mirrors s"
  by (simp add: notify_active_def notify_n_windows_def mirrors_updateVisibility
      mirrors_kept[OF kept_fields_updateMenu] mirrors_updateIcon
      mirrors_kept[OF kept_fields_updateLabel] mirrors_kept[OF kept_fields_record_effects])

lemma mirrors_fold_emit:
  "keep_alive_mirrors (fold (emit_window_opened a) ws s) = keep_alive_mirrors s"
  by (induction ws arbitrary: s) (simp_all add: mirrors_kept[OF kept_fields_emit_window_opened])

lemma mirrors_n_windows: "keep_alive_mirrors (s\<lparr>n_windows := n\<rparr>) = keep_alive_mirrors s"
  by (simp add: keep_alive_mirrors_def)

lemma mirrors_refresh: "keep_alive_mirrors (snd (refresh h a s)) = keep_alive_mirrors s"
  by (simp add: refresh_def Let_def snd_outcome mirrors_notify mirrors_n_windows
      mirrors_fold_emit mirrors_kept[OF kept_fields_launch] mirrors_kept[OF kept_fields_tasks]
      split: sum.splits)

lemma mirrors_step: "keep_alive_mirrors s \<Longrightarrow> keep_alive_mirrors (step h ev s)"
proof (cases ev)
  case (Refresh a)
  assume "keep_alive_mirrors s"
  then show ?thesis using Refresh by (simp add: mirrors_refresh)
next
  case (Changed_keep_alive b)
  then show ?thesis by (simp add: keep_alive_mirrors_def)
next
  case (Changed_use_builtin_icon b)
  assume "keep_alive_mirrors s"
  then show ?thesis using Changed_use_builtin_icon
    by (simp add: loadIcons_def mirrors_updateIcon) (simp add: keep_alive_mirrors_def)
next
  case (Changed_show_open_note_count b)
  assume "keep_alive_mirrors s"
  then show ?thesis using Changed_show_open_note_count
    by (simp add: mirrors_kept[OF kept_fields_updateLabel]) (simp add: keep_alive_mirrors_def)
next
  case (Changed_show_panel_indicator v)
  assume "keep_alive_mirrors s"
  then show ?thesis using Changed_show_panel_indicator
    by (simp add: mirrors_updateVisibility) (simp add: keep_alive_mirrors_def)
next
  case (Changed_trigger trg v)
  assume "keep_alive_mirrors s"
  then show ?thesis using Changed_trigger
    by (simp add: bindAction_def keep_alive_mirrors_def)
next
  case (Button_press e a)
  assume "keep_alive_mirrors s"
  then show ?thesis using Button_press
    by (simp add: mirrors_kept[OF kept_fields_onButtonPress])
next
  case (Scroll e a)
  assume "keep_alive_mirrors s"
  then show ?thesis using Scroll
    by (simp add: mirrors_kept[OF kept_fields_onScroll])
qed

lemma mirrors_bindAction: "keep_alive_mirrors (bindAction trg s) = keep_alive_mirrors s"
  by (simp add: bindAction_def keep_alive_mirrors_def)

lemma mirrors_enable: "keep_alive_mirrors (enable h st a)"
  by (simp add: enable_def StickyNotesIndicator_init_def TriggerKey_values_def
      mirrors_updateVisibility mirrors_kept[OF kept_fields_updateMenu]
      mirrors_kept[OF kept_fields_updateLabel] mirrors_updateIcon loadIcons_def
      mirrors_bindAction)
     (simp add: keep_alive_mirrors_def bindAction_def StickyNotesInterface_new_def)

text \<open>In every state that the enabled extension reaches, the field is the setting.\<close>

lemma keep_alive_is_setting:
  "keep_alive (run h evs (enable h st a)) = keep_alive_setting (settings (run h evs (enable h st a)))"
proof -
  have "keep_alive_mirrors s \<Longrightarrow> keep_alive_mirrors (run h evs s)" for s
    unfolding run_def by (induction evs arbitrary: s) (simp_all add: mirrors_step)
  then show ?thesis using mirrors_enable by (simp add: keep_alive_mirrors_def)
qed

end
